theory Spec2Isabelle
  imports Main "HOL-Library.Word"
begin

unbundle bit_operations_syntax

section \<open>The HTTP transport connection of the MTProto layer\<close>

text \<open>
  A shallow embedding of \<^verbatim>\<open>Telegram/SourceFiles/mtproto/connection_http.cpp\<close>.
  Every member function of \<^verbatim>\<open>HttpConnection\<close> becomes a function that takes the
  object's members as a record and returns the outward effects it performs, in order,
  together with the updated record. Log lines are left out; they change nothing.
\<close>

subsection \<open>Words, bytes and buffers\<close>

text \<open>
  \<^verbatim>\<open>mtpPrime\<close> is a 32-bit integer, \<^verbatim>\<open>mtpBuffer\<close> a vector of them, a
  \<^verbatim>\<open>QByteArray\<close> a sequence of bytes. The source moves data between the two by
  address (\<^verbatim>\<open>(const char*)(&buffer[2])\<close>, \<^verbatim>\<open>memcpy\<close>), so the byte order
  of the machine shows: it is taken to be little-endian, as on every platform the
  application is built for.
\<close>

type_synonym mtpPrime = "32 word"
type_synonym mtpBuffer = "mtpPrime list"
type_synonym byte = "8 word"
type_synonym QByteArray = "byte list"
type_synonym MTPint128 = "128 word"
type_synonym TimeMs = int

definition prime_bytes :: "mtpPrime \<Rightarrow> byte list" where
  "prime_bytes w =
     [ucast w, ucast (drop_bit 8 w), ucast (drop_bit 16 w), ucast (drop_bit 24 w)]"

definition bytes_prime :: "byte \<Rightarrow> byte \<Rightarrow> byte \<Rightarrow> byte \<Rightarrow> mtpPrime" where
  "bytes_prime b0 b1 b2 b3 =
     ucast b0 OR push_bit 8 (ucast b1) OR push_bit 16 (ucast b2) OR push_bit 24 (ucast b3)"

text \<open>The bytes a buffer occupies in memory, first word first.\<close>

definition buffer_bytes :: "mtpBuffer \<Rightarrow> byte list" where
  "buffer_bytes buffer = concat (map prime_bytes buffer)"

text \<open>
  A byte of a source array, read as zero beyond its end: the value a freshly sized
  \<^verbatim>\<open>mtpBuffer\<close> holds where \<^verbatim>\<open>memcpy\<close> has written nothing.
\<close>

definition byte_at :: "byte list \<Rightarrow> nat \<Rightarrow> byte" where
  "byte_at bs i = (if i < length bs then bs ! i else 0)"

text \<open>\<^verbatim>\<open>mtpBuffer data(n); memcpy(data.data(), bs, ...)\<close>: the \<open>n\<close> words at \<open>bs\<close>.\<close>

fun memcpy_primes :: "nat \<Rightarrow> byte list \<Rightarrow> mtpBuffer" where
  "memcpy_primes 0 bs = []"
| "memcpy_primes (Suc n) bs =
     bytes_prime (byte_at bs 0) (byte_at bs 1) (byte_at bs 2) (byte_at bs 3)
       # memcpy_primes n (drop 4 bs)"

subsection \<open>Decoding a response\<close>

text \<open>
  \<^verbatim>\<open>HttpConnection::handleResponse\<close>, on the bytes \<^verbatim>\<open>reply->readAll()\<close> returned.
  \<^verbatim>\<open>response.size()\<close> is a non-negative \<^verbatim>\<open>int\<close>; \<^verbatim>\<open>& 0x03\<close> and \<^verbatim>\<open>>> 2\<close>
  are kept as the bit operations they are.
\<close>

definition handleResponse :: "QByteArray \<Rightarrow> mtpBuffer" where
  "handleResponse response =
     (if response = [] then []
      else if (int (length response) AND 3) \<noteq> 0 \<or> length response < 8 then [- 500]
      else memcpy_primes (drop_bit 2 (length response)) response)"

subsection \<open>Collaborators that live outside this file\<close>

text \<open>
  The source uses four names it does not define: the constant \<^verbatim>\<open>kErrorCodeOther\<close>,
  the address test \<^verbatim>\<open>qthelp::is_ipv6\<close>, and the codec functions
  \<^verbatim>\<open>preparePQFake\<close> and \<^verbatim>\<open>readPQFakeReply\<close>. They are parameters of the
  model. \<^verbatim>\<open>readPQFakeReply\<close> either throws or yields a \<^verbatim>\<open>resPQ\<close> whose
  \<^verbatim>\<open>vnonce\<close> field the caller reads: \<open>None\<close> is the exception, \<open>Some\<close> carries the
  nonce.
\<close>

record externals =
  kErrorCodeOther :: "32 word"
  is_ipv6 :: "string \<Rightarrow> bool"
  preparePQFake :: "MTPint128 \<Rightarrow> mtpBuffer"
  readPQFakeReply :: "mtpBuffer \<Rightarrow> MTPint128 option"

subsection \<open>Replies, requests and effects\<close>

text \<open>The values of \<^verbatim>\<open>QNetworkReply::NetworkError\<close> the source names, and the rest.\<close>

datatype NetworkError =
    NoError
  | ConnectionRefusedError | RemoteHostClosedError | HostNotFoundError | TimeoutError
  | OperationCanceledError
  | SslHandshakeFailedError | TemporaryNetworkFailureError | NetworkSessionFailedError
  | BackgroundRequestNotAllowedError | UnknownNetworkError
  | ProxyConnectionRefusedError | ProxyConnectionClosedError | ProxyNotFoundError
  | ProxyTimeoutError | ProxyAuthenticationRequiredError | UnknownProxyError
  | ContentAccessDenied | ContentOperationNotPermittedError | ContentNotFoundError
  | AuthenticationRequiredError | ContentReSendError | UnknownContentError
  | ProtocolUnknownError | ProtocolInvalidOperationError | ProtocolFailure
  | UnlistedError int

text \<open>
  What the slot reads from a \<^verbatim>\<open>QNetworkReply *\<close>: the pointer itself (its identity
  in \<^verbatim>\<open>_requests\<close>), \<^verbatim>\<open>error()\<close>, the \<^verbatim>\<open>HttpStatusCodeAttribute\<close> (\<open>None\<close>
  is an invalid \<^verbatim>\<open>QVariant\<close>) and \<^verbatim>\<open>readAll()\<close>.
\<close>

record QNetworkReply =
  reply_ptr :: nat
  reply_error :: NetworkError
  reply_statusCode :: "32 word option"
  reply_readAll :: QByteArray

text \<open>
  \<open>QUrl s\<close> stands for the object \<^verbatim>\<open>QUrl(s)\<close> constructs from the string \<open>s\<close>. How
  that object splits the string into host, port and path is not described here.
\<close>

datatype QUrl = QUrl string

record QNetworkRequest =
  request_url :: QUrl
  request_ContentLength :: int
  request_ContentType :: string
  request_body :: QByteArray

text \<open>
  Everything a member function does to the outside: the three signals of the connection,
  a \<^verbatim>\<open>post\<close> on the network manager (with the reply pointer it returned), and the
  calls on a reply.
\<close>

datatype effect =
    Emit_error "32 word"
  | Emit_receivedData
  | Emit_connected
  | Post nat QNetworkRequest
  | Abort nat
  | DeleteLater nat

fun is_signal :: "effect \<Rightarrow> bool" where
  "is_signal (Emit_error code) = True"
| "is_signal Emit_receivedData = True"
| "is_signal Emit_connected = True"
| "is_signal (Post r q) = False"
| "is_signal (Abort r) = False"
| "is_signal (DeleteLater r) = False"

subsection \<open>The connection object\<close>

text \<open>
  Modelled from the spec: the enumeration \<^verbatim>\<open>Status\<close>, which the header declares.
  The source names \<^verbatim>\<open>Ready\<close> and \<^verbatim>\<open>Finished\<close> and treats any other value as
  the state before the handshake, which the specification calls \<open>Connecting\<close>.
\<close>

datatype Status = Connecting | Ready | Finished

text \<open>
  The members: \<^verbatim>\<open>_status\<close>, \<^verbatim>\<open>_checkNonce\<close>, \<^verbatim>\<open>_address\<close>, \<^verbatim>\<open>_pingTime\<close>,
  \<^verbatim>\<open>_requests\<close> (a \<^verbatim>\<open>QSet\<close> of reply pointers: a list without repetition, whose
  order stands for the set's iteration order), \<^verbatim>\<open>_receivedQueue\<close>, and of
  \<^verbatim>\<open>_manager\<close> the next reply it will hand out, how many times its
  \<^verbatim>\<open>finished\<close> signal is connected to \<^verbatim>\<open>requestFinished\<close>, and the proxy
  settings it was last given.
\<close>

typedecl ProxyData

record HttpConnection =
  status :: Status
  checkNonce :: MTPint128
  address :: string
  pingTimeMs :: TimeMs
  requests :: "nat list"
  receivedQueue :: "mtpBuffer list"
  manager_next :: nat
  manager_finished_slots :: nat
  manager_proxy :: "ProxyData option"

definition construct :: "MTPint128 \<Rightarrow> HttpConnection" where
  "construct nonce =
     \<lparr>status = Connecting, checkNonce = nonce, address = [], pingTimeMs = 0,
      requests = [], receivedQueue = [], manager_next = 0, manager_finished_slots = 0,
      manager_proxy = None\<rparr>"

text \<open>\<^verbatim>\<open>HttpConnection::setProxyOverride\<close> hands the settings to the manager.\<close>

definition setProxyOverride :: "ProxyData \<Rightarrow> HttpConnection \<Rightarrow> effect list \<times> HttpConnection" where
  "setProxyOverride proxy c = ([], c\<lparr>manager_proxy := Some proxy\<rparr>)"

subsection \<open>Building the URL\<close>

text \<open>
  \<^verbatim>\<open>QString::arg\<close> replaces every occurrence of the lowest-numbered place marker of
  the string. A place marker is \<^verbatim>\<open>%\<close>, an optional \<^verbatim>\<open>L\<close>, and one or two
  decimal digits. A string without a marker is returned as it is. (Digits are the ASCII
  ones here, and a number is substituted as the C locale prints it.)
\<close>

definition digitValue :: "char \<Rightarrow> nat option" where
  "digitValue c =
     (if 48 \<le> (of_char c :: nat) \<and> (of_char c :: nat) \<le> 57
      then Some (of_char c - 48) else None)"

text \<open>The marker number at the head of a text, and how many digits it takes.\<close>

fun escape_digits :: "string \<Rightarrow> (nat \<times> nat) option" where
  "escape_digits [] = None"
| "escape_digits [d] = (case digitValue d of None \<Rightarrow> None | Some e \<Rightarrow> Some (e, 1))"
| "escape_digits (d # d2 # cs) =
     (case digitValue d of
        None \<Rightarrow> None
      | Some e \<Rightarrow>
          (case digitValue d2 of None \<Rightarrow> Some (e, 1) | Some e2 \<Rightarrow> Some (10 * e + e2, 2)))"

text \<open>The same for the text that follows a \<^verbatim>\<open>%\<close>.\<close>

fun escape_at :: "string \<Rightarrow> (nat \<times> nat) option" where
  "escape_at [] = None"
| "escape_at (c # cs) =
     (if c = CHR ''L''
      then (case escape_digits cs of None \<Rightarrow> None | Some (e, k) \<Rightarrow> Some (e, Suc k))
      else escape_digits (c # cs))"

datatype piece = Plain char | Escape nat string

function findArgEscapes :: "string \<Rightarrow> piece list" where
  "findArgEscapes [] = []"
| "findArgEscapes (c # cs) =
     (if c = CHR ''%''
      then (case escape_at cs of
              None \<Rightarrow> Plain c # findArgEscapes cs
            | Some (e, k) \<Rightarrow> Escape e (c # take k cs) # findArgEscapes (drop k cs))
      else Plain c # findArgEscapes cs)"
  by pat_completeness auto
termination
  by (relation "measure length") auto

fun min_escape :: "piece list \<Rightarrow> nat option" where
  "min_escape [] = None"
| "min_escape (Plain c # ps) = min_escape ps"
| "min_escape (Escape e t # ps) =
     (case min_escape ps of None \<Rightarrow> Some e | Some m \<Rightarrow> Some (min e m))"

fun replaceArgEscapes :: "nat \<Rightarrow> string \<Rightarrow> piece list \<Rightarrow> string" where
  "replaceArgEscapes m a [] = []"
| "replaceArgEscapes m a (Plain c # ps) = c # replaceArgEscapes m a ps"
| "replaceArgEscapes m a (Escape e t # ps) =
     (if e = m then a else t) @ replaceArgEscapes m a ps"

text \<open>The text a piece stands for, and the marker numbers of a scanned string.\<close>

fun piece_text :: "piece \<Rightarrow> string" where
  "piece_text (Plain c) = [c]"
| "piece_text (Escape e t) = t"

fun escapes :: "piece list \<Rightarrow> nat list" where
  "escapes [] = []"
| "escapes (Plain c # ps) = escapes ps"
| "escapes (Escape e t # ps) = e # escapes ps"

definition place_markers :: "string \<Rightarrow> nat list" where
  "place_markers s = escapes (findArgEscapes s)"

definition QString_arg :: "string \<Rightarrow> string \<Rightarrow> string" where
  "QString_arg s a =
     (case min_escape (findArgEscapes s) of
        None \<Rightarrow> s
      | Some m \<Rightarrow> replaceArgEscapes m a (findArgEscapes s))"

text \<open>A number in decimal, as \<^verbatim>\<open>arg(int)\<close> prints it.\<close>

function QString_number :: "nat \<Rightarrow> string" where
  "QString_number n =
     (if n < 10 then [char_of (48 + n)]
      else QString_number (n div 10) @ [char_of (48 + n mod 10)])"
  by pat_completeness auto
termination
  by (relation "measure id") auto

declare QString_number.simps [simp del]

definition kForceHttpPort :: nat where
  "kForceHttpPort = 80"

text \<open>\<^verbatim>\<open>HttpConnection::url\<close>.\<close>

definition url :: "externals \<Rightarrow> HttpConnection \<Rightarrow> QUrl" where
  "url ext c =
     QUrl
       (QString_arg
          (QString_arg
             (if is_ipv6 ext (address c) then ''http://[%1]:%2/api'' else ''http://%1:%2/api'')
             (address c))
          (QString_number kForceHttpPort))"

subsection \<open>Sending\<close>

text \<open>
  \<^verbatim>\<open>HttpConnection::sendData\<close>. \<^verbatim>\<open>requestSize\<close> counts bytes;
  \<^verbatim>\<open>QByteArray((const char*)(&buffer[2]), requestSize)\<close> is that many bytes of the
  buffer's memory from its third word on. A vector holds fewer than \<open>2 ^ 29\<close> words, so
  the conversion of the size to \<^verbatim>\<open>int32\<close> loses nothing. The manager returns a reply
  it has not returned before.
\<close>

definition sendData :: "externals \<Rightarrow> mtpBuffer \<Rightarrow> HttpConnection \<Rightarrow> effect list \<times> HttpConnection" where
  "sendData ext buffer c =
     (if status c = Finished then ([], c)
      else if length buffer < 3 then ([Emit_error (kErrorCodeOther ext)], c)
      else
        let requestSize = (length buffer - 3) * 4;
            request = \<lparr>request_url = url ext c,
                       request_ContentLength = int requestSize,
                       request_ContentType = ''application/x-www-form-urlencoded'',
                       request_body = take requestSize (buffer_bytes (drop 2 buffer))\<rparr>;
            reply = manager_next c
        in ([Post reply request],
            c\<lparr>requests := List.insert reply (requests c), manager_next := Suc reply\<rparr>))"

subsection \<open>Connecting and disconnecting\<close>

text \<open>
  \<^verbatim>\<open>HttpConnection::disconnectFromServer\<close>. \<^verbatim>\<open>base::take(_requests)\<close> empties the
  member and the loop runs over what it held.
\<close>

definition disconnectFromServer :: "HttpConnection \<Rightarrow> effect list \<times> HttpConnection" where
  "disconnectFromServer c =
     (if status c = Finished then ([], c)
      else (concat (map (\<lambda>request. [Abort request, DeleteLater request]) (requests c)),
            c\<lparr>status := Finished, requests := [], manager_finished_slots := 0\<rparr>))"

text \<open>
  \<^verbatim>\<open>HttpConnection::connectToServer\<close>; \<open>now\<close> is what \<^verbatim>\<open>getms()\<close> returns. The
  port, the protocol secret and the protocol DC id are accepted and not used.
\<close>

definition connectToServer ::
  "externals \<Rightarrow> TimeMs \<Rightarrow> string \<Rightarrow> int \<Rightarrow> byte list \<Rightarrow> 16 word \<Rightarrow> HttpConnection
     \<Rightarrow> effect list \<times> HttpConnection" where
  "connectToServer ext now addr port protocolSecret protocolDcId c =
     (let c1 = c\<lparr>address := addr, manager_finished_slots := Suc (manager_finished_slots c)\<rparr>;
          buffer = preparePQFake ext (checkNonce c1);
          c2 = c1\<lparr>pingTimeMs := now\<rparr>
      in sendData ext buffer c2)"

subsection \<open>Completed requests\<close>

text \<open>The class under which \<^verbatim>\<open>handleError\<close> logs a failure: the \<^verbatim>\<open>switch\<close>.\<close>

fun logged_class :: "NetworkError \<Rightarrow> string option" where
  "logged_class ConnectionRefusedError = Some ''connection refused''"
| "logged_class RemoteHostClosedError = Some ''remote host closed''"
| "logged_class HostNotFoundError = Some ''host not found''"
| "logged_class TimeoutError = Some ''timeout''"
| "logged_class OperationCanceledError = Some ''cancelled''"
| "logged_class SslHandshakeFailedError = Some ''network error''"
| "logged_class TemporaryNetworkFailureError = Some ''network error''"
| "logged_class NetworkSessionFailedError = Some ''network error''"
| "logged_class BackgroundRequestNotAllowedError = Some ''network error''"
| "logged_class UnknownNetworkError = Some ''network error''"
| "logged_class ProxyConnectionRefusedError = Some ''proxy error''"
| "logged_class ProxyConnectionClosedError = Some ''proxy error''"
| "logged_class ProxyNotFoundError = Some ''proxy error''"
| "logged_class ProxyTimeoutError = Some ''proxy error''"
| "logged_class ProxyAuthenticationRequiredError = Some ''proxy error''"
| "logged_class UnknownProxyError = Some ''proxy error''"
| "logged_class ContentAccessDenied = Some ''content error''"
| "logged_class ContentOperationNotPermittedError = Some ''content error''"
| "logged_class ContentNotFoundError = Some ''content error''"
| "logged_class AuthenticationRequiredError = Some ''content error''"
| "logged_class ContentReSendError = Some ''content error''"
| "logged_class UnknownContentError = Some ''content error''"
| "logged_class ProtocolUnknownError = Some ''protocol error''"
| "logged_class ProtocolInvalidOperationError = Some ''protocol error''"
| "logged_class ProtocolFailure = Some ''protocol error''"
| "logged_class NoError = None"
| "logged_class (UnlistedError k) = None"

text \<open>
  \<^verbatim>\<open>HttpConnection::handleError\<close>: the log line and the code returned. The negation
  is that of a 32-bit \<^verbatim>\<open>int\<close>.
\<close>

definition handleError_log :: "QNetworkReply \<Rightarrow> string option" where
  "handleError_log reply = logged_class (reply_error reply)"

definition handleError :: "externals \<Rightarrow> QNetworkReply \<Rightarrow> 32 word" where
  "handleError ext reply =
     (case reply_statusCode reply of
        None \<Rightarrow> kErrorCodeOther ext
      | Some code \<Rightarrow> - code)"

definition isConnected :: "HttpConnection \<Rightarrow> bool" where
  "isConnected c = (status c = Ready)"

text \<open>
  \<^verbatim>\<open>HttpConnection::requestFinished\<close>; \<open>now\<close> is what \<^verbatim>\<open>getms()\<close> returns.
  \<^verbatim>\<open>_requests.remove\<close> says whether the reply was in the set.
\<close>

definition requestFinished ::
  "externals \<Rightarrow> TimeMs \<Rightarrow> QNetworkReply \<Rightarrow> HttpConnection \<Rightarrow> effect list \<times> HttpConnection" where
  "requestFinished ext now reply c =
     (if status c = Finished then ([], c)
      else if reply_error reply = NoError then
        let c1 = c\<lparr>requests := removeAll (reply_ptr reply) (requests c)\<rparr>;
            data = handleResponse (reply_readAll reply)
        in if length data = 1 then
             ([DeleteLater (reply_ptr reply), Emit_error (data ! 0)], c1)
           else if data \<noteq> [] then
             (if status c1 = Ready then
                ([DeleteLater (reply_ptr reply), Emit_receivedData],
                 c1\<lparr>receivedQueue := receivedQueue c1 @ [data]\<rparr>)
              else
                (case readPQFakeReply ext data of
                   None \<Rightarrow>
                     ([DeleteLater (reply_ptr reply), Emit_error (kErrorCodeOther ext)], c1)
                 | Some vnonce \<Rightarrow>
                     if vnonce = checkNonce c1 then
                       ([DeleteLater (reply_ptr reply), Emit_connected],
                        c1\<lparr>status := Ready, pingTimeMs := now - pingTimeMs c1\<rparr>)
                     else ([DeleteLater (reply_ptr reply)], c1)))
           else ([DeleteLater (reply_ptr reply)], c1)
      else if reply_ptr reply \<notin> set (requests c) then ([DeleteLater (reply_ptr reply)], c)
      else
        ([DeleteLater (reply_ptr reply), Emit_error (handleError ext reply)],
         c\<lparr>requests := removeAll (reply_ptr reply) (requests c)\<rparr>))"

subsection \<open>Queries\<close>

definition pingTime :: "HttpConnection \<Rightarrow> TimeMs" where
  "pingTime c = (if isConnected c then pingTimeMs c else 0)"

definition usingHttpWait :: "HttpConnection \<Rightarrow> bool" where
  "usingHttpWait c = True"

definition needHttpWait :: "HttpConnection \<Rightarrow> bool" where
  "needHttpWait c = (requests c = [])"

definition debugState :: "HttpConnection \<Rightarrow> 32 word" where
  "debugState c = - 1"

definition tag :: "externals \<Rightarrow> HttpConnection \<Rightarrow> string" where
  "tag ext c = ''HTTP'' @ (if is_ipv6 ext (address c) then ''/IPv6'' else ''/IPv4'')"

definition transport :: "externals \<Rightarrow> HttpConnection \<Rightarrow> string" where
  "transport ext c =
     (if \<not> isConnected c then []
      else ''HTTP'' @ (if is_ipv6 ext (address c) then ''/IPv6'' else []))"

subsection \<open>Sequences of calls\<close>

datatype call =
    SendData mtpBuffer
  | DisconnectFromServer
  | ConnectToServer TimeMs string int "byte list" "16 word"
  | RequestFinished TimeMs QNetworkReply
  | SetProxyOverride ProxyData

fun perform :: "externals \<Rightarrow> call \<Rightarrow> HttpConnection \<Rightarrow> effect list \<times> HttpConnection" where
  "perform ext (SendData buffer) c = sendData ext buffer c"
| "perform ext DisconnectFromServer c = disconnectFromServer c"
| "perform ext (ConnectToServer now addr port secret dc) c =
     connectToServer ext now addr port secret dc c"
| "perform ext (RequestFinished now reply) c = requestFinished ext now reply c"
| "perform ext (SetProxyOverride proxy) c = setProxyOverride proxy c"

fun run :: "externals \<Rightarrow> call list \<Rightarrow> HttpConnection \<Rightarrow> effect list \<times> HttpConnection" where
  "run ext [] c = ([], c)"
| "run ext (x # xs) c =
     (case perform ext x c of (es, c') \<Rightarrow> (case run ext xs c' of (es', c'') \<Rightarrow> (es @ es', c'')))"

text \<open>The order the specification gives the states: a state and the states it may move to.\<close>

fun advances :: "Status \<Rightarrow> Status \<Rightarrow> bool" where
  "advances Connecting s = True"
| "advances Ready s = (s = Ready \<or> s = Finished)"
| "advances Finished s = (s = Finished)"

text \<open>
  What holds of the members whenever a member function is entered: the set has no
  repeated element, and a finished connection tracks nothing.
\<close>

definition well_formed :: "HttpConnection \<Rightarrow> bool" where
  "well_formed c = (distinct (requests c) \<and> (status c \<noteq> Finished \<or> requests c = []))"

text \<open>The bodies of the requests posted in a run of effects, and the signals emitted.\<close>

definition posted_bodies :: "effect list \<Rightarrow> QByteArray list" where
  "posted_bodies es =
     concat (map (\<lambda>e. case e of Post r q \<Rightarrow> [request_body q] | _ \<Rightarrow> []) es)"

definition signals :: "effect list \<Rightarrow> effect list" where
  "signals es = filter is_signal es"

subsection \<open>Sample collaborators and inputs\<close>

text \<open>
  One choice of the outside names, for evaluating the model on concrete inputs: the
  address test looks for a colon and no dot; the sample codec puts the nonce's low word
  after the two header words and reads a two-word answer back.
\<close>

definition sample_ext :: externals where
  "sample_ext =
     \<lparr>kErrorCodeOther = - 499,
      is_ipv6 = (\<lambda>a. CHR '':'' \<in> set a \<and> CHR ''.'' \<notin> set a),
      preparePQFake = (\<lambda>nonce. [0, 0, ucast nonce, 0]),
      readPQFakeReply = (\<lambda>data. case data of [a, b] \<Rightarrow> Some (ucast a) | _ \<Rightarrow> None)\<rparr>"

text \<open>A connection that has sent its probe, and a successful reply with a given body.\<close>

definition sample_connecting :: HttpConnection where
  "sample_connecting =
     snd (connectToServer sample_ext 100 ''149.154.167.51'' 443 [] 2 (construct 5))"

definition sample_reply :: "QByteArray \<Rightarrow> QNetworkReply" where
  "sample_reply bytes =
     \<lparr>reply_ptr = 0, reply_error = NoError, reply_statusCode = Some 200,
      reply_readAll = bytes\<rparr>"

subsection \<open>Facts about the byte order\<close>

lemma prime_bytes_bytes_prime:
  "prime_bytes (bytes_prime b0 b1 b2 b3) = [b0, b1, b2, b3]"
proof -
  have "ucast (bytes_prime b0 b1 b2 b3) = b0"
    unfolding bytes_prime_def
    by (rule bit_word_eqI) (auto simp: bit_simps)
  moreover have "ucast (drop_bit 8 (bytes_prime b0 b1 b2 b3)) = b1"
    unfolding bytes_prime_def
    by (rule bit_word_eqI) (auto simp: bit_simps dest: bit_imp_le_length)
  moreover have "ucast (drop_bit 16 (bytes_prime b0 b1 b2 b3)) = b2"
    unfolding bytes_prime_def
    by (rule bit_word_eqI) (auto simp: bit_simps dest: bit_imp_le_length)
  moreover have "ucast (drop_bit 24 (bytes_prime b0 b1 b2 b3)) = b3"
    unfolding bytes_prime_def
    by (rule bit_word_eqI) (auto simp: bit_simps dest: bit_imp_le_length)
  ultimately show ?thesis
    by (simp add: prime_bytes_def)
qed

lemma length_prime_bytes: "length (prime_bytes w) = 4"
  by (simp add: prime_bytes_def)

lemma length_buffer_bytes: "length (buffer_bytes buffer) = 4 * length buffer"
  by (induction buffer) (simp_all add: buffer_bytes_def length_prime_bytes)

lemma length_memcpy_primes: "length (memcpy_primes n bs) = n"
  by (induction n arbitrary: bs) simp_all

lemma four_bytes:
  assumes "length bs = 4 * Suc n"
  obtains b0 b1 b2 b3 rest where "bs = b0 # b1 # b2 # b3 # rest" and "length rest = 4 * n"
proof -
  from assms obtain b0 r0 where r0: "bs = b0 # r0"
    by (cases bs) auto
  with assms obtain b1 r1 where r1: "r0 = b1 # r1"
    by (cases r0) auto
  with assms r0 obtain b2 r2 where r2: "r1 = b2 # r2"
    by (cases r1) auto
  with assms r0 r1 obtain b3 r3 where r3: "r2 = b3 # r3"
    by (cases r2) auto
  from assms r0 r1 r2 r3 have "length r3 = 4 * n"
    by simp
  with r0 r1 r2 r3 that show thesis
    by blast
qed

lemma buffer_bytes_memcpy_primes:
  "length bs = 4 * n \<Longrightarrow> buffer_bytes (memcpy_primes n bs) = bs"
proof (induction n arbitrary: bs)
  case 0
  then show ?case by (simp add: buffer_bytes_def)
next
  case (Suc n)
  from Suc.prems obtain b0 b1 b2 b3 rest
    where bs: "bs = b0 # b1 # b2 # b3 # rest" and rest: "length rest = 4 * n"
    by (rule four_bytes)
  from Suc.IH [OF rest] have "buffer_bytes (memcpy_primes n rest) = rest" .
  then show ?case
    by (simp add: bs buffer_bytes_def byte_at_def prime_bytes_bytes_prime)
qed

lemma size_and_3: "(int n AND 3 = 0) = (n mod 4 = 0)"
proof -
  have "int n AND 3 = int n AND mask 2"
    by (simp add: mask_eq_exp_minus_1)
  also have "\<dots> = int n mod 4"
    by (simp add: take_bit_eq_mask [symmetric] take_bit_eq_mod)
  finally have "int n AND 3 = int (n mod 4)"
    by (simp add: zmod_int)
  then show ?thesis
    by simp
qed

lemma size_shift_2: "drop_bit 2 (n :: nat) = n div 4"
  by (simp add: drop_bit_eq_div)

lemma take_buffer_bytes: "take (4 * k) (buffer_bytes buffer) = buffer_bytes (take k buffer)"
proof (induction buffer arbitrary: k)
  case Nil
  then show ?case by (simp add: buffer_bytes_def)
next
  case (Cons w buffer)
  show ?case
  proof (cases k)
    case 0
    then show ?thesis by (simp add: buffer_bytes_def)
  next
    case (Suc j)
    have "take (4 * k) (buffer_bytes (w # buffer)) =
          take (length (prime_bytes w) + 4 * j) (prime_bytes w @ buffer_bytes buffer)"
      by (simp add: Suc buffer_bytes_def length_prime_bytes)
    also have "\<dots> = prime_bytes w @ take (4 * j) (buffer_bytes buffer)"
      by simp
    also have "\<dots> = prime_bytes w @ buffer_bytes (take j buffer)"
      by (simp add: Cons.IH)
    finally show ?thesis
      by (simp add: Suc buffer_bytes_def)
  qed
qed

lemma sint_uminus_32:
  fixes w :: "32 word"
  assumes "sint w \<noteq> - (2 ^ 31)"
  shows "sint (- w) = - sint w"
proof -
  have lo: "- (2 ^ 31) \<le> sint w" and hi: "sint w < 2 ^ 31"
    using sint_ge [of w] sint_lt [of w] by simp_all
  have "sint (- w) = signed_take_bit 31 (- sint w)"
    by (simp add: sint_word_ariths)
  also have "\<dots> = - sint w"
    using assms lo hi by (simp add: signed_take_bit_int_eq_self)
  finally show ?thesis .
qed

subsection \<open>Facts about the sample inputs\<close>

lemma sample_connecting_value:
  "sample_connecting =
     \<lparr>status = Connecting, checkNonce = 5, address = ''149.154.167.51'', pingTimeMs = 100,
      requests = [0], receivedQueue = [], manager_next = 1, manager_finished_slots = 1,
      manager_proxy = None\<rparr>"
  by (simp add: sample_connecting_def connectToServer_def sendData_def construct_def
      sample_ext_def Let_def)

lemma memcpy_primes_unfold:
  "0 < n \<Longrightarrow> memcpy_primes n bs =
     bytes_prime (byte_at bs 0) (byte_at bs 1) (byte_at bs 2) (byte_at bs 3)
       # memcpy_primes (n - 1) (drop 4 bs)"
  by (cases n) simp_all

lemma handleResponse_samples:
  "handleResponse [5, 0, 0, 0, 0, 0, 0, 0] = [5, 0]"
  "handleResponse [7, 0, 0, 0, 0, 0, 0, 0] = [7, 0]"
  "handleResponse [5, 0, 0, 0, 0, 0, 0, 0, 0, 0, 0, 0] = [5, 0, 0]"
  by (simp_all add: handleResponse_def memcpy_primes_unfold byte_at_def bytes_prime_def
      drop_bit_eq_div)

subsection \<open>Facts about the status and the tracked set\<close>

lemma advances_refl: "advances s s"
  by (cases s) simp_all

lemma advances_trans: "advances a b \<Longrightarrow> advances b c \<Longrightarrow> advances a c"
  by (cases a; cases b) auto

lemma status_sendData: "status (snd (sendData ext buffer c)) = status c"
  by (simp add: sendData_def Let_def)

lemma status_connectToServer:
  "status (snd (connectToServer ext now addr port secret dc c)) = status c"
  by (simp add: connectToServer_def Let_def status_sendData)

lemma status_disconnectFromServer: "status (snd (disconnectFromServer c)) = Finished"
  by (simp add: disconnectFromServer_def)

lemma status_requestFinished:
  "status (snd (requestFinished ext now reply c)) = status c \<or>
   status c = Connecting \<and> status (snd (requestFinished ext now reply c)) = Ready"
  by (cases "status c") (simp_all add: requestFinished_def Let_def split: option.splits)

lemma advances_perform: "advances (status c) (status (snd (perform ext x c)))"
proof (cases x)
  case (SendData buffer)
  then show ?thesis by (simp add: status_sendData advances_refl)
next
  case DisconnectFromServer
  then show ?thesis by (cases "status c") (simp_all add: status_disconnectFromServer)
next
  case (ConnectToServer now addr port secret dc)
  then show ?thesis by (simp add: status_connectToServer advances_refl)
next
  case (RequestFinished now reply)
  with status_requestFinished [of ext now reply c] show ?thesis
    by (auto simp: advances_refl)
next
  case (SetProxyOverride proxy)
  then show ?thesis by (simp add: setProxyOverride_def advances_refl)
qed

lemma snd_run_Cons: "snd (run ext (x # xs) c) = snd (run ext xs (snd (perform ext x c)))"
  by (simp split: prod.splits)

lemma snd_run_append: "snd (run ext (xs @ ys) c) = snd (run ext ys (snd (run ext xs c)))"
proof (induction xs arbitrary: c)
  case Nil
  show ?case by simp
next
  case (Cons x xs)
  show ?case
    by (simp only: append_Cons snd_run_Cons Cons.IH)
qed

lemma advances_run: "advances (status c) (status (snd (run ext calls c)))"
proof (induction calls arbitrary: c)
  case Nil
  show ?case by (simp add: advances_refl)
next
  case (Cons x xs)
  have "advances (status c) (status (snd (perform ext x c)))"
    by (rule advances_perform)
  moreover have "advances (status (snd (perform ext x c)))
      (status (snd (run ext xs (snd (perform ext x c)))))"
    by (rule Cons.IH)
  ultimately show ?case
    unfolding snd_run_Cons by (rule advances_trans)
qed

lemma count_list_aborts:
  "count_list (concat (map (\<lambda>request. [Abort request, DeleteLater request]) rs)) (Abort r) =
     count_list rs r"
  by (induction rs) simp_all

lemma count_list_deletes:
  "count_list (concat (map (\<lambda>request. [Abort request, DeleteLater request]) rs))
     (DeleteLater r) = count_list rs r"
  by (induction rs) simp_all

lemma count_list_distinct: "distinct rs \<Longrightarrow> r \<in> set rs \<Longrightarrow> count_list rs r = 1"
  by (induction rs) auto

lemma run_sends_finished:
  "status c = Finished \<Longrightarrow> run ext (map SendData buffers) c = ([], c)"
  by (induction buffers) (simp_all add: sendData_def)

lemma well_formed_construct: "well_formed (construct nonce)"
  by (simp add: well_formed_def construct_def)

lemma well_formed_sendData: "well_formed c \<Longrightarrow> well_formed (snd (sendData ext buffer c))"
  by (auto simp: well_formed_def sendData_def Let_def)

lemma well_formed_perform: "well_formed c \<Longrightarrow> well_formed (snd (perform ext x c))"
proof (cases x)
  case (SendData buffer)
  assume "well_formed c"
  with SendData show ?thesis by (simp add: well_formed_sendData)
next
  case DisconnectFromServer
  assume "well_formed c"
  with DisconnectFromServer show ?thesis
    by (auto simp: well_formed_def disconnectFromServer_def)
next
  case (ConnectToServer now addr port secret dc)
  assume "well_formed c"
  then have "well_formed (c\<lparr>address := addr,
      manager_finished_slots := Suc (manager_finished_slots c), pingTimeMs := now\<rparr>)"
    by (simp add: well_formed_def)
  with ConnectToServer show ?thesis
    by (simp add: connectToServer_def Let_def well_formed_sendData)
next
  case (RequestFinished now reply)
  assume "well_formed c"
  with RequestFinished show ?thesis
    by (cases "status c")
      (auto simp: well_formed_def requestFinished_def Let_def distinct_removeAll
        split: option.splits)
next
  case (SetProxyOverride proxy)
  assume "well_formed c"
  with SetProxyOverride show ?thesis
    by (simp add: well_formed_def setProxyOverride_def)
qed

lemma well_formed_run: "well_formed c \<Longrightarrow> well_formed (snd (run ext calls c))"
proof (induction calls arbitrary: c)
  case Nil
  then show ?case by simp
next
  case (Cons x xs)
  from Cons.prems have "well_formed (snd (perform ext x c))"
    by (rule well_formed_perform)
  then have "well_formed (snd (run ext xs (snd (perform ext x c))))"
    by (rule Cons.IH)
  then show ?case
    by (simp only: snd_run_Cons)
qed

subsection \<open>Facts about place markers\<close>

lemma QString_number_80: "QString_number kForceHttpPort = ''80''"
  by code_simp

lemma escape_digits_append:
  assumes "digitValue y = None"
  shows "escape_digits (cs @ y # ys) = escape_digits cs"
proof (cases cs)
  case Nil
  with assms show ?thesis by (cases ys) simp_all
next
  case (Cons d ds)
  with assms show ?thesis
    by (cases ds) (simp_all split: option.splits)
qed

lemma escape_at_append:
  assumes "digitValue y = None" and "y \<noteq> CHR ''L''"
  shows "escape_at (cs @ y # ys) = escape_at cs"
proof (cases cs)
  case Nil
  with assms show ?thesis
    using escape_digits_append [OF assms(1), of "[]" ys] by simp
next
  case (Cons d ds)
  show ?thesis
  proof (cases "d = CHR ''L''")
    case True
    with Cons show ?thesis
      by (simp add: escape_digits_append [OF assms(1)])
  next
    case False
    with Cons show ?thesis
      using escape_digits_append [OF assms(1), of "d # ds" ys] by simp
  qed
qed

lemma escape_digits_length: "escape_digits cs = Some (e, k) \<Longrightarrow> k \<le> length cs"
  by (induction cs rule: escape_digits.induct) (auto split: option.splits)

lemma escape_at_length: "escape_at cs = Some (e, k) \<Longrightarrow> k \<le> length cs"
  by (cases cs) (auto split: if_splits option.splits dest: escape_digits_length)

lemma findArgEscapes_append:
  assumes "digitValue y = None" and "y \<noteq> CHR ''L''"
  shows "findArgEscapes (xs @ y # ys) = findArgEscapes xs @ findArgEscapes (y # ys)"
proof (induction xs rule: findArgEscapes.induct)
  case 1
  show ?case by simp
next
  case (2 c cs)
  show ?case
  proof (cases "c = CHR ''%''")
    case False
    with 2 show ?thesis by simp
  next
    case True
    show ?thesis
    proof (cases "escape_at cs")
      case None
      with True 2 show ?thesis
        by (simp add: escape_at_append [OF assms])
    next
      case (Some ek)
      obtain e k where ek: "ek = (e, k)" by (cases ek)
      with Some have k: "k \<le> length cs"
        by (auto dest: escape_at_length)
      from True Some ek have "findArgEscapes (drop k cs @ y # ys) =
          findArgEscapes (drop k cs) @ findArgEscapes (y # ys)"
        by (intro "2.IH"(2)) simp_all
      with True Some ek k show ?thesis
        by (simp add: escape_at_append [OF assms])
    qed
  qed
qed

lemma concat_piece_text: "concat (map piece_text (findArgEscapes s)) = s"
proof (induction s rule: findArgEscapes.induct)
  case 1
  show ?case by simp
next
  case (2 c cs)
  then show ?case
    by (auto split: option.splits)
qed

lemma replaceArgEscapes_append:
  "replaceArgEscapes m a (ps @ qs) = replaceArgEscapes m a ps @ replaceArgEscapes m a qs"
  by (induction ps rule: escapes.induct) simp_all

lemma replaceArgEscapes_other:
  "m \<notin> set (escapes ps) \<Longrightarrow> replaceArgEscapes m a ps = concat (map piece_text ps)"
  by (induction ps rule: escapes.induct) auto

lemma min_escape_append:
  assumes "\<forall>e \<in> set (escapes ps). m < e" and "min_escape qs = Some m"
  shows "min_escape (ps @ qs) = Some m"
  using assms by (induction ps rule: escapes.induct) (auto simp: min_def)

lemma arg_host_v4: "QString_arg ''http://%1:%2/api'' host = ''http://'' @ host @ '':%2/api''"
  by (simp add: QString_arg_def digitValue_def)

lemma arg_host_v6: "QString_arg ''http://[%1]:%2/api'' host = ''http://['' @ host @ '']:%2/api''"
  by (simp add: QString_arg_def digitValue_def)

lemma findArgEscapes_plain:
  "CHR ''%'' \<notin> set p \<Longrightarrow> findArgEscapes (p @ s) = map Plain p @ findArgEscapes s"
  by (induction p) auto

lemma min_escape_plain: "min_escape (map Plain p @ ps) = min_escape ps"
  by (induction p) simp_all

lemma replaceArgEscapes_plain:
  "replaceArgEscapes m a (map Plain p @ ps) = p @ replaceArgEscapes m a ps"
  by (induction p) simp_all

lemma QString_arg_prefix:
  "CHR ''%'' \<notin> set p \<Longrightarrow> QString_arg (p @ s) a = p @ QString_arg s a"
  by (simp add: QString_arg_def findArgEscapes_plain min_escape_plain replaceArgEscapes_plain
      split: option.splits)

lemma QString_arg_after_host:
  assumes "\<forall>e \<in> set (place_markers host). 2 < e"
    and "digitValue y = None" and "y \<noteq> CHR ''L''"
    and "min_escape (findArgEscapes (y # t)) = Some 2"
  shows "QString_arg (host @ y # t) a = host @ replaceArgEscapes 2 a (findArgEscapes (y # t))"
proof -
  have scan: "findArgEscapes (host @ y # t) = findArgEscapes host @ findArgEscapes (y # t)"
    by (rule findArgEscapes_append [OF assms(2,3)])
  from assms(1,4) have low: "min_escape (findArgEscapes host @ findArgEscapes (y # t)) = Some 2"
    by (intro min_escape_append) (simp_all add: place_markers_def)
  from assms(1) have "2 \<notin> set (escapes (findArgEscapes host))"
    by (auto simp: place_markers_def)
  then have "replaceArgEscapes 2 a (findArgEscapes host) = host"
    by (simp add: replaceArgEscapes_other concat_piece_text)
  then show ?thesis
    unfolding QString_arg_def scan low
    by (simp only: option.case replaceArgEscapes_append)
qed

lemma address_connectToServer:
  "address (snd (connectToServer ext now host port secret dc c)) = host"
  by (simp add: connectToServer_def sendData_def Let_def)

subsection \<open>Facts about the handshake\<close>

text \<open>
  The three ways \<^verbatim>\<open>requestFinished\<close> treats a frame of several words while the
  status is \<open>Connecting\<close>: the nonce matches, the frame does not parse, or it parses
  with another nonce.
\<close>

lemma requestFinished_handshake_branches:
  assumes "status c = Connecting" and "reply_error reply = NoError"
    and "2 \<le> length (handleResponse (reply_readAll reply))"
  shows
    "(readPQFakeReply ext (handleResponse (reply_readAll reply)) = Some (checkNonce c) \<longrightarrow>
        requestFinished ext now reply c =
          ([DeleteLater (reply_ptr reply), Emit_connected],
           c\<lparr>requests := removeAll (reply_ptr reply) (requests c),
             status := Ready, pingTimeMs := now - pingTimeMs c\<rparr>) \<and>
        (pingTimeMs c \<le> now \<longrightarrow> 0 \<le> pingTime (snd (requestFinished ext now reply c)))) \<and>
     (readPQFakeReply ext (handleResponse (reply_readAll reply)) = None \<longrightarrow>
        requestFinished ext now reply c =
          ([DeleteLater (reply_ptr reply), Emit_error (kErrorCodeOther ext)],
           c\<lparr>requests := removeAll (reply_ptr reply) (requests c)\<rparr>)) \<and>
     (readPQFakeReply ext (handleResponse (reply_readAll reply)) = Some vnonce \<and>
      vnonce \<noteq> checkNonce c \<longrightarrow>
        requestFinished ext now reply c =
          ([DeleteLater (reply_ptr reply)],
           c\<lparr>requests := removeAll (reply_ptr reply) (requests c)\<rparr>))"
proof -
  from assms(3) have "length (handleResponse (reply_readAll reply)) \<noteq> 1"
    and "handleResponse (reply_readAll reply) \<noteq> []"
    by auto
  with assms(1,2) show ?thesis
    by (simp add: requestFinished_def Let_def pingTime_def isConnected_def)
qed

subsection \<open>Facts about the URL\<close>

text \<open>
  Where the host holds no place marker numbered 0, 1 or 2, the string given to
  \<^verbatim>\<open>QUrl\<close> is the pattern with the host and 80 in their places, and the port given
  to \<^verbatim>\<open>connectToServer\<close> has no part in it.
\<close>

lemma url_without_low_markers:
  assumes "\<forall>e \<in> set (place_markers host). 2 < e"
  shows "url ext (c\<lparr>address := host\<rparr>) =
           QUrl (if is_ipv6 ext host then ''http://['' @ host @ '']:80/api''
                 else ''http://'' @ host @ '':80/api'') \<and>
         url ext (snd (connectToServer ext now host port secret dc c)) =
           url ext (c\<lparr>address := host\<rparr>)"
proof
  have v4: "QString_arg (''http://'' @ host @ '':%2/api'') ''80'' =
      ''http://'' @ host @ '':80/api''"
  proof -
    have "QString_arg (host @ CHR '':'' # ''%2/api'') ''80'' =
        host @ replaceArgEscapes 2 ''80'' (findArgEscapes (CHR '':'' # ''%2/api''))"
      using assms by (rule QString_arg_after_host) (simp_all add: digitValue_def)
    then have "QString_arg (host @ '':%2/api'') ''80'' = host @ '':80/api''"
      by (simp add: digitValue_def)
    then show ?thesis
      using QString_arg_prefix [of "''http://''" "host @ '':%2/api''" "''80''"] by simp
  qed
  have v6: "QString_arg (''http://['' @ host @ '']:%2/api'') ''80'' =
      ''http://['' @ host @ '']:80/api''"
  proof -
    have "QString_arg (host @ CHR '']'' # '':%2/api'') ''80'' =
        host @ replaceArgEscapes 2 ''80'' (findArgEscapes (CHR '']'' # '':%2/api''))"
      using assms by (rule QString_arg_after_host) (simp_all add: digitValue_def)
    then have "QString_arg (host @ '']:%2/api'') ''80'' = host @ '']:80/api''"
      by (simp add: digitValue_def)
    then show ?thesis
      using QString_arg_prefix [of "''http://[''" "host @ '']:%2/api''" "''80''"] by simp
  qed
  show "url ext (c\<lparr>address := host\<rparr>) =
      QUrl (if is_ipv6 ext host then ''http://['' @ host @ '']:80/api''
            else ''http://'' @ host @ '':80/api'')"
    using v4 v6 by (simp add: url_def arg_host_v4 arg_host_v6 QString_number_80)
  show "url ext (snd (connectToServer ext now host port secret dc c)) =
      url ext (c\<lparr>address := host\<rparr>)"
    by (simp add: url_def address_connectToServer)
qed

lemma url_samples:
  "url sample_ext ((construct 5)\<lparr>address := ''2001:db8::1''\<rparr>) =
     QUrl ''http://[2001:db8::1]:80/api'' \<and>
   url sample_ext ((construct 5)\<lparr>address := ''203.0.113.5''\<rparr>) =
     QUrl ''http://203.0.113.5:80/api'' \<and>
   url sample_ext (snd (connectToServer sample_ext 100 ''203.0.113.5'' 443 [] 2 (construct 5))) =
     QUrl ''http://203.0.113.5:80/api''"
proof -
  have h6: "\<forall>e \<in> set (place_markers ''2001:db8::1''). 2 < e"
    by (simp add: place_markers_def)
  have h4: "\<forall>e \<in> set (place_markers ''203.0.113.5''). 2 < e"
    by (simp add: place_markers_def)
  show ?thesis
    using url_without_low_markers [OF h6, of sample_ext "construct 5" 100 443 "[]" 2]
      url_without_low_markers [OF h4, of sample_ext "construct 5" 100 443 "[]" 2]
    by (simp add: sample_ext_def)
qed

section \<open>The outbound body\<close>

text \<open>
  On the buffer \<open>[1, 2, 3]\<close> a fresh connection posts one request with an empty body:
  not the four bytes of the third word.
\<close>

theorem sendData_body_counterexample:
  "status (construct 5) \<noteq> Finished \<and> 3 \<le> length [1, 2, 3 :: mtpPrime] \<and>
   posted_bodies (fst (sendData sample_ext [1, 2, 3] (construct 5))) \<noteq>
     [buffer_bytes (drop 2 [1, 2, 3])] \<and>
   map length (posted_bodies (fst (sendData sample_ext [1, 2, 3] (construct 5)))) \<noteq>
     [(length [1, 2, 3 :: mtpPrime] - 2) * 4]"
  by (simp add: sendData_def construct_def sample_ext_def Let_def buffer_bytes_def
      posted_bodies_def prime_bytes_def)

text \<open>
  Claim C1, as the code has it. For a buffer of \<open>N \<ge> 3\<close> words passed to
  \<^verbatim>\<open>sendData\<close> while the connection is not finished, exactly one request is posted
  and tracked; its body is \<open>(N - 3) * 4\<close> bytes long and holds the buffer's words from
  offset 2 up to, and not including, the last one: the two leading words and the one
  trailing word are dropped. The content length announced is that same number.
\<close>

theorem sendData_body:
  assumes "status c \<noteq> Finished" and "3 \<le> length buffer"
  shows "sendData ext buffer c =
           ([Post (manager_next c)
               \<lparr>request_url = url ext c,
                request_ContentLength = int ((length buffer - 3) * 4),
                request_ContentType = ''application/x-www-form-urlencoded'',
                request_body = buffer_bytes (butlast (drop 2 buffer))\<rparr>],
            c\<lparr>requests := List.insert (manager_next c) (requests c),
              manager_next := Suc (manager_next c)\<rparr>) \<and>
         length (buffer_bytes (butlast (drop 2 buffer))) = (length buffer - 3) * 4"
proof -
  have "take ((length buffer - 3) * 4) (buffer_bytes (drop 2 buffer)) =
        buffer_bytes (take (length buffer - 3) (drop 2 buffer))"
    using take_buffer_bytes [of "length buffer - 3" "drop 2 buffer"]
    by (simp add: mult.commute)
  also have "take (length buffer - 3) (drop 2 buffer) = butlast (drop 2 buffer)"
    by (simp add: butlast_conv_take)
  finally have body: "take ((length buffer - 3) * 4) (buffer_bytes (drop 2 buffer)) =
                      buffer_bytes (butlast (drop 2 buffer))" .
  have "length (buffer_bytes (butlast (drop 2 buffer))) = (length buffer - 3) * 4"
    by (simp add: length_buffer_bytes)
  with assms body show ?thesis
    by (simp add: sendData_def Let_def)
qed

theorem sendData_body_witness:
  "status (construct 5) \<noteq> Finished \<and> 3 \<le> length [1, 2, 3, 4, 5 :: mtpPrime] \<and>
   posted_bodies (fst (sendData sample_ext [1, 2, 3, 4, 5] (construct 5))) =
     [[3, 0, 0, 0, 4, 0, 0, 0]]"
proof -
  have h1: "status (construct 5) \<noteq> Finished"
    by (simp add: construct_def)
  have h2: "3 \<le> length [1, 2, 3, 4, 5 :: mtpPrime]"
    by simp
  show ?thesis
    using h1 h2 sendData_body [OF h1 h2, of sample_ext]
    by (simp add: posted_bodies_def buffer_bytes_def prime_bytes_def)
qed

section \<open>Decoding\<close>

text \<open>
  Claim C3. \<^verbatim>\<open>handleResponse\<close> has exactly three cases, and they cover every byte
  array: an empty input gives an empty frame; a non-empty input whose length is not a
  multiple of 4 or is below 8 gives the single word \<open>-500\<close>; any other input gives
  \<open>length div 4\<close> words that occupy exactly the input's bytes.
\<close>

theorem handleResponse_three_cases:
  "(response = [] \<longrightarrow> handleResponse response = []) \<and>
   (response \<noteq> [] \<and> (length response mod 4 \<noteq> 0 \<or> length response < 8) \<longrightarrow>
      handleResponse response = [- 500] \<and> sint (hd (handleResponse response)) = - 500) \<and>
   (response \<noteq> [] \<and> length response mod 4 = 0 \<and> 8 \<le> length response \<longrightarrow>
      length (handleResponse response) = length response div 4 \<and>
      buffer_bytes (handleResponse response) = response)"
proof (intro conjI impI)
  assume "response = []"
  then show "handleResponse response = []"
    by (simp add: handleResponse_def)
next
  assume bad: "response \<noteq> [] \<and> (length response mod 4 \<noteq> 0 \<or> length response < 8)"
  then show "handleResponse response = [- 500]"
    by (auto simp: handleResponse_def size_and_3)
  then show "sint (hd (handleResponse response)) = - 500"
    by simp
next
  assume good: "response \<noteq> [] \<and> length response mod 4 = 0 \<and> 8 \<le> length response"
  then have eq: "handleResponse response = memcpy_primes (length response div 4) response"
    by (simp add: handleResponse_def size_and_3 size_shift_2)
  show "length (handleResponse response) = length response div 4"
    by (simp add: eq length_memcpy_primes)
  from good have "length response mod 4 = 0"
    by simp
  then have "length response = 4 * (length response div 4)"
    by presburger
  then show "buffer_bytes (handleResponse response) = response"
    unfolding eq by (rule buffer_bytes_memcpy_primes)
qed

theorem handleResponse_three_cases_witness:
  "handleResponse [] = [] \<and>
   handleResponse [1, 2, 3] = [- 500] \<and>
   handleResponse [1, 0, 0, 0] = [- 500] \<and>
   length (handleResponse [1, 0, 0, 0, 2, 0, 0, 0]) = 2 \<and>
   buffer_bytes (handleResponse [1, 0, 0, 0, 2, 0, 0, 0]) = [1, 0, 0, 0, 2, 0, 0, 0]"
  using handleResponse_three_cases [of "[]"]
    handleResponse_three_cases [of "[1, 2, 3]"]
    handleResponse_three_cases [of "[1, 0, 0, 0]"]
    handleResponse_three_cases [of "[1, 0, 0, 0, 2, 0, 0, 0]"]
  by simp

section \<open>Mapping a failure to a code\<close>

text \<open>
  Claim C4. The code \<^verbatim>\<open>handleError\<close> returns for a failed reply is the negation of
  the HTTP status code when the reply carries one (404 gives \<open>-404\<close>) and
  \<^verbatim>\<open>kErrorCodeOther\<close> when it carries none; the failure category of the reply has no
  influence on it.
\<close>

theorem handleError_code:
  "(reply_statusCode reply = Some code \<longrightarrow>
      handleError ext reply = - code \<and>
      (sint code \<noteq> - (2 ^ 31) \<longrightarrow> sint (handleError ext reply) = - sint code)) \<and>
   (reply_statusCode reply = None \<longrightarrow> handleError ext reply = kErrorCodeOther ext) \<and>
   handleError ext (reply\<lparr>reply_error := category\<rparr>) = handleError ext reply"
  by (simp add: handleError_def sint_uminus_32)

theorem handleError_code_witness:
  "sint (handleError sample_ext
      \<lparr>reply_ptr = 0, reply_error = ContentNotFoundError, reply_statusCode = Some 404,
       reply_readAll = []\<rparr>) = - 404 \<and>
   handleError sample_ext
      \<lparr>reply_ptr = 0, reply_error = TimeoutError, reply_statusCode = None,
       reply_readAll = []\<rparr> = kErrorCodeOther sample_ext"
  using
    handleError_code [of "\<lparr>reply_ptr = 0, reply_error = ContentNotFoundError,
      reply_statusCode = Some 404, reply_readAll = []\<rparr>" 404 sample_ext ContentNotFoundError]
    handleError_code [of "\<lparr>reply_ptr = 0, reply_error = TimeoutError,
      reply_statusCode = None, reply_readAll = []\<rparr>" 0 sample_ext TimeoutError]
  by simp

section \<open>Malformed outbound buffers\<close>

text \<open>
  Claim C7. For a buffer of fewer than 3 words passed to \<^verbatim>\<open>sendData\<close> while the
  connection is not finished, nothing is posted, no member changes, and exactly one
  signal is emitted: \<^verbatim>\<open>error(kErrorCodeOther)\<close>.
\<close>

theorem sendData_short_buffer:
  assumes "status c \<noteq> Finished" and "length buffer < 3"
  shows "sendData ext buffer c = ([Emit_error (kErrorCodeOther ext)], c)"
  using assms by (simp add: sendData_def)

theorem sendData_short_buffer_witness:
  "status (construct 5) \<noteq> Finished \<and> length [1, 2 :: mtpPrime] < 3 \<and>
   sendData sample_ext [1, 2] (construct 5) = ([Emit_error (- 499)], construct 5)"
proof -
  have h1: "status (construct 5) \<noteq> Finished"
    by (simp add: construct_def)
  have h2: "length [1, 2 :: mtpPrime] < 3"
    by simp
  show ?thesis
    using h1 h2 sendData_short_buffer [OF h1 h2, of sample_ext]
    by (simp add: sample_ext_def)
qed

section \<open>The long-poll queries\<close>

text \<open>
  Claim C10. In every state \<^verbatim>\<open>needHttpWait()\<close> is true exactly when no request is
  in flight, and \<^verbatim>\<open>usingHttpWait()\<close> is true.
\<close>

theorem needHttpWait_usingHttpWait:
  "needHttpWait c = (set (requests c) = {}) \<and> usingHttpWait c = True"
  by (simp add: needHttpWait_def usingHttpWait_def)

section \<open>Late failures\<close>

text \<open>
  Claim C8. A failed completion whose reply is not in the tracked set is dropped:
  \<^verbatim>\<open>requestFinished\<close> emits no signal, posts nothing, and leaves every member
  (the status and the received queue among them) as it was.
\<close>

theorem requestFinished_untracked_failure:
  assumes "reply_error reply \<noteq> NoError" and "reply_ptr reply \<notin> set (requests c)"
  shows "snd (requestFinished ext now reply c) = c \<and>
         signals (fst (requestFinished ext now reply c)) = [] \<and>
         posted_bodies (fst (requestFinished ext now reply c)) = []"
  using assms by (simp add: requestFinished_def signals_def posted_bodies_def)

theorem requestFinished_untracked_failure_witness:
  "reply_error ((sample_reply [])\<lparr>reply_ptr := 3, reply_error := OperationCanceledError\<rparr>) \<noteq> NoError \<and>
   reply_ptr ((sample_reply [])\<lparr>reply_ptr := 3, reply_error := OperationCanceledError\<rparr>)
     \<notin> set (requests sample_connecting) \<and>
   requestFinished sample_ext 150
     ((sample_reply [])\<lparr>reply_ptr := 3, reply_error := OperationCanceledError\<rparr>) sample_connecting =
     ([DeleteLater 3], sample_connecting)"
proof -
  have h1: "reply_error ((sample_reply [])\<lparr>reply_ptr := 3, reply_error := OperationCanceledError\<rparr>)
      \<noteq> NoError"
    by (simp add: sample_reply_def)
  have h2: "reply_ptr ((sample_reply [])\<lparr>reply_ptr := 3, reply_error := OperationCanceledError\<rparr>)
     \<notin> set (requests sample_connecting)"
    by (simp add: sample_reply_def sample_connecting_value)
  show ?thesis
    using h1 h2 requestFinished_untracked_failure [OF h1 h2, of sample_ext 150]
    by (simp add: requestFinished_def sample_reply_def sample_connecting_value)
qed

section \<open>The handshake\<close>

text \<open>
  Claim C2. While the status is \<open>Connecting\<close>, a reply that decodes to a frame of
  several words and fails the handshake, because the frame does not parse or because its
  nonce is not \<^verbatim>\<open>_checkNonce\<close>, is to leave the status at \<open>Connecting\<close> and emit
  \<^verbatim>\<open>error(kErrorCodeOther)\<close>. The code does so for a frame that does not parse. For a
  frame with another nonce it does not: on a connection that waits for nonce 5, a
  two-word answer with nonce 7 is released and untracked, the status stays
  \<open>Connecting\<close>, and no signal is emitted.
\<close>

theorem requestFinished_nonce_mismatch:
  "status sample_connecting = Connecting \<and>
   checkNonce sample_connecting = 5 \<and>
   reply_error (sample_reply [7, 0, 0, 0, 0, 0, 0, 0]) = NoError \<and>
   readPQFakeReply sample_ext [7, 0] = Some 7 \<and>
   requestFinished sample_ext 150 (sample_reply [7, 0, 0, 0, 0, 0, 0, 0]) sample_connecting =
     ([DeleteLater 0], sample_connecting\<lparr>requests := []\<rparr>) \<and>
   signals (fst (requestFinished sample_ext 150 (sample_reply [7, 0, 0, 0, 0, 0, 0, 0])
     sample_connecting)) = [] \<and>
   readPQFakeReply sample_ext [5, 0, 0] = None \<and>
   requestFinished sample_ext 150 (sample_reply [5, 0, 0, 0, 0, 0, 0, 0, 0, 0, 0, 0])
       sample_connecting =
     ([DeleteLater 0, Emit_error (kErrorCodeOther sample_ext)],
      sample_connecting\<lparr>requests := []\<rparr>)"
  by (simp add: requestFinished_def sample_reply_def sample_connecting_value
      handleResponse_samples sample_ext_def signals_def)

section \<open>The status never goes back\<close>

text \<open>
  Claim C5. Along every sequence of calls (send, connect, a completed request,
  disconnect, a change of proxy) the status only advances: from the status reached after any first part of
  the sequence, the status at any later point is the same or further along
  \<open>Connecting\<close>, \<open>Ready\<close>, \<open>Finished\<close>; so \<open>Ready\<close> never returns to
  \<open>Connecting\<close> and \<open>Finished\<close> never changes.
\<close>

theorem status_only_advances:
  "advances (status (snd (run ext before c))) (status (snd (run ext (before @ after) c)))"
  unfolding snd_run_append by (rule advances_run)

theorem status_only_advances_witness:
  "advances Ready (status (snd (run sample_ext
     [RequestFinished 150 (sample_reply [5, 0, 0, 0, 0, 0, 0, 0]),
      ConnectToServer 200 ''149.154.167.51'' 443 [] 2,
      RequestFinished 250 (sample_reply [5, 0, 0, 0, 0, 0, 0, 0])] sample_connecting))) \<and>
   status (snd (run sample_ext
     [RequestFinished 150 (sample_reply [5, 0, 0, 0, 0, 0, 0, 0])] sample_connecting)) = Ready"
proof -
  have first: "status (snd (run sample_ext
     [RequestFinished 150 (sample_reply [5, 0, 0, 0, 0, 0, 0, 0])] sample_connecting)) = Ready"
    by (simp add: requestFinished_def sample_reply_def sample_connecting_value
        handleResponse_samples sample_ext_def)
  show ?thesis
    using first status_only_advances [of sample_ext
      "[RequestFinished 150 (sample_reply [5, 0, 0, 0, 0, 0, 0, 0])]" sample_connecting
      "[ConnectToServer 200 ''149.154.167.51'' 443 [] 2,
        RequestFinished 250 (sample_reply [5, 0, 0, 0, 0, 0, 0, 0])]"]
    by simp
qed

section \<open>Disconnecting twice\<close>

text \<open>
  Claim C6. \<^verbatim>\<open>disconnectFromServer\<close> is idempotent: a second call right after the
  first does nothing, so two calls have the effects and the result of one. After the
  call the status is \<open>Finished\<close> and the tracked set is empty; every reply that was
  tracked has been aborted once and released once; and every later \<^verbatim>\<open>sendData\<close>
  posts nothing, emits nothing and changes nothing.
\<close>

theorem disconnect_idempotent:
  assumes "well_formed c"
  shows "disconnectFromServer (snd (disconnectFromServer c)) = ([], snd (disconnectFromServer c)) \<and>
         run ext [DisconnectFromServer, DisconnectFromServer] c = run ext [DisconnectFromServer] c \<and>
         status (snd (disconnectFromServer c)) = Finished \<and>
         requests (snd (disconnectFromServer c)) = [] \<and>
         (\<forall>r \<in> set (requests c).
            count_list (fst (disconnectFromServer c)) (Abort r) = 1 \<and>
            count_list (fst (disconnectFromServer c)) (DeleteLater r) = 1) \<and>
         run ext (map SendData buffers) (snd (disconnectFromServer c)) =
           ([], snd (disconnectFromServer c))"
proof (intro conjI ballI)
  show twice: "disconnectFromServer (snd (disconnectFromServer c)) =
      ([], snd (disconnectFromServer c))"
    by (simp add: disconnectFromServer_def)
  obtain es c1 where first: "disconnectFromServer c = (es, c1)"
    by (cases "disconnectFromServer c")
  with twice have "disconnectFromServer c1 = ([], c1)"
    by simp
  with first show "run ext [DisconnectFromServer, DisconnectFromServer] c =
      run ext [DisconnectFromServer] c"
    by simp
  show fin: "status (snd (disconnectFromServer c)) = Finished"
    by (rule status_disconnectFromServer)
  from assms show "requests (snd (disconnectFromServer c)) = []"
    by (auto simp: disconnectFromServer_def well_formed_def)
  from fin show "run ext (map SendData buffers) (snd (disconnectFromServer c)) =
      ([], snd (disconnectFromServer c))"
    by (rule run_sends_finished)
next
  fix r
  assume r: "r \<in> set (requests c)"
  with assms have live: "status c \<noteq> Finished" and "distinct (requests c)"
    by (auto simp: well_formed_def)
  with r have one: "count_list (requests c) r = 1"
    by (simp add: count_list_distinct)
  from live one show "count_list (fst (disconnectFromServer c)) (Abort r) = 1"
    by (simp add: disconnectFromServer_def count_list_aborts)
  from live one show "count_list (fst (disconnectFromServer c)) (DeleteLater r) = 1"
    by (simp add: disconnectFromServer_def count_list_deletes)
qed

theorem disconnect_idempotent_witness:
  "well_formed sample_connecting \<and>
   run sample_ext [DisconnectFromServer, DisconnectFromServer] sample_connecting =
     ([Abort 0, DeleteLater 0],
      sample_connecting\<lparr>status := Finished, requests := [], manager_finished_slots := 0\<rparr>) \<and>
   run sample_ext [DisconnectFromServer, DisconnectFromServer, SendData [1, 2, 3, 4],
       SendData [1]] sample_connecting =
     ([Abort 0, DeleteLater 0],
      sample_connecting\<lparr>status := Finished, requests := [], manager_finished_slots := 0\<rparr>)"
proof -
  have h: "well_formed sample_connecting"
    by (simp add: well_formed_def sample_connecting_value)
  show ?thesis
    using h disconnect_idempotent [OF h, of sample_ext "[[1, 2, 3, 4], [1]]"]
    by (simp add: disconnectFromServer_def sendData_def sample_connecting_value)
qed

section \<open>The target URL\<close>

text \<open>
  Claim C9. The request is to go to \<^verbatim>\<open>http://[host]:80/api\<close> when the host is an
  IPv6 literal and to \<^verbatim>\<open>http://host:80/api\<close> otherwise, with port 80 whatever port
  \<^verbatim>\<open>connectToServer\<close> is given. The code does not do so for a host that holds a
  place marker. At the scoped IPv6 literal \<^verbatim>\<open>fe80::1%1\<close> the second \<^verbatim>\<open>arg\<close> puts
  80 into the host's own \<^verbatim>\<open>%1\<close> and leaves \<^verbatim>\<open>%2\<close> where the port belongs, and the
  probe is posted to the URL made from \<^verbatim>\<open>http://[fe80::180]:%2/api\<close>; at the host
  \<^verbatim>\<open>%1\<close> the string is \<^verbatim>\<open>http://80:%2/api\<close>.
\<close>

theorem url_scoped_literal:
  "is_ipv6 sample_ext ''fe80::1%1'' \<and>
   url sample_ext ((construct 5)\<lparr>address := ''fe80::1%1''\<rparr>) =
     QUrl ''http://[fe80::180]:%2/api'' \<and>
   fst (connectToServer sample_ext 100 ''fe80::1%1'' 443 [] 2 (construct 5)) =
     [Post 0
        \<lparr>request_url = QUrl ''http://[fe80::180]:%2/api'',
         request_ContentLength = 4,
         request_ContentType = ''application/x-www-form-urlencoded'',
         request_body = [5, 0, 0, 0]\<rparr>] \<and>
   url sample_ext ((construct 5)\<lparr>address := ''%1''\<rparr>) = QUrl ''http://80:%2/api''"
  by (simp add: url_def connectToServer_def sendData_def sample_ext_def construct_def
      QString_arg_def digitValue_def QString_number_80 Let_def buffer_bytes_def prime_bytes_def)

end
